theory Spec2Isabelle
  imports Complex_Main
begin

section \<open>Python built-ins used by the notebook\<close>

text \<open>
  The notebook \<open>Overview of Ray\<close> trains \<open>NUM_MODELS\<close> random forests, first one after
  another (\<open>run_sequential\<close>), then as Ray tasks (\<open>run_parallel\<close>), and picks the best
  result with \<open>min(mse_scores, key=itemgetter(1))\<close>.

  \<open>min\<close> of an empty sequence raises \<open>ValueError\<close>.
\<close>

datatype py_error = ValueError

text \<open>\<open>range(n)\<close> for an integer \<open>n\<close>: \<open>0, 1, ..., n - 1\<close>, empty when \<open>n \<le> 0\<close>.\<close>

definition range_py :: "int \<Rightarrow> int list" where
  "range_py n = map int [0..<nat n]"

text \<open>\<open>itemgetter(1)\<close> on a pair: its second component.\<close>

definition itemgetter_1 :: "'a \<times> 'b \<Rightarrow> 'b" where
  "itemgetter_1 t = snd t"

text \<open>
  \<open>min(iterable, key=f)\<close> as CPython computes it: the first item is the candidate, and a
  later item replaces the candidate only when its key is strictly smaller.
\<close>

fun min_scan :: "('a \<Rightarrow> 'k::ord) \<Rightarrow> 'a \<Rightarrow> 'a list \<Rightarrow> 'a" where
  "min_scan key best [] = best"
| "min_scan key best (item # rest) =
     min_scan key (if key item < key best then item else best) rest"

definition min_py :: "'a list \<Rightarrow> ('a \<Rightarrow> 'k::ord) \<Rightarrow> py_error + 'a" where
  "min_py xs key = (case xs of [] \<Rightarrow> Inl ValueError | x # rest \<Rightarrow> Inr (min_scan key x rest))"

text \<open>The cell \<open>best = min(mse_scores, key=itemgetter(1))\<close>.\<close>

definition best :: "(int \<times> 's::ord) list \<Rightarrow> py_error + int \<times> 's" where
  "best mse_scores = min_py mse_scores itemgetter_1"

section \<open>The job: \<open>train_and_score_model\<close>\<close>

text \<open>
  scikit-learn is not part of the notebook, so its three operations are parameters of the
  model. Python passes the data frames by reference, so each operation returns, next to
  its result or the exception it raised, the arguments as it left them: an operation
  that writes into a frame is one that returns it changed.
\<close>

record ('d, 'm, 'p, 's, 'e) sklearn =
  RandomForestRegressor :: "int \<Rightarrow> int \<Rightarrow> 'm"
  fit :: "'m \<Rightarrow> 'd \<Rightarrow> 'd \<Rightarrow> ('e + 'm) \<times> 'd \<times> 'd"
  predict :: "'m \<Rightarrow> 'd \<Rightarrow> ('e + 'p) \<times> 'd"
  mean_squared_error :: "'d \<Rightarrow> 'p \<Rightarrow> ('e + 's) \<times> 'd"

text \<open>
  The function returns \<open>(n_estimators, score)\<close>, or the exception of the first operation
  that raised, together with the four frames as the call left them. The timing and the
  printed line do not enter the returned value and are left out.
\<close>

definition train_and_score_model ::
  "('d, 'm, 'p, 's, 'e) sklearn \<Rightarrow> 'd \<Rightarrow> 'd \<Rightarrow> 'd \<Rightarrow> 'd \<Rightarrow> int
     \<Rightarrow> ('e + int \<times> 's) \<times> ('d \<times> 'd \<times> 'd \<times> 'd)" where
  "train_and_score_model skl train_set test_set train_labels test_labels n_estimators =
     (let model = RandomForestRegressor skl n_estimators 201 in
      case fit skl model train_set train_labels of
        (Inl e, train_set', train_labels') \<Rightarrow>
          (Inl e, train_set', test_set, train_labels', test_labels)
      | (Inr model', train_set', train_labels') \<Rightarrow>
          (case predict skl model' test_set of
             (Inl e, test_set') \<Rightarrow>
               (Inl e, train_set', test_set', train_labels', test_labels)
           | (Inr y_pred, test_set') \<Rightarrow>
               (case mean_squared_error skl test_labels y_pred of
                  (Inl e, test_labels') \<Rightarrow>
                    (Inl e, train_set', test_set', train_labels', test_labels')
                | (Inr score, test_labels') \<Rightarrow>
                    (Inr (n_estimators, score),
                     train_set', test_set', train_labels', test_labels'))))"

section \<open>The sequential runner\<close>

text \<open>The notebook's globals \<open>X_train, X_test, y_train, y_test\<close>.\<close>

record 'd shared_input =
  X_train :: 'd
  X_test :: 'd
  y_train :: 'd
  y_test :: 'd

text \<open>
  The list comprehension of \<open>run_sequential\<close>: one call per \<open>j\<close>, in order, each on the
  globals as the call before left them; the first exception ends the comprehension.
\<close>

fun sequential_jobs ::
  "('d, 'm, 'p, 's, 'e) sklearn \<Rightarrow> 'd shared_input \<Rightarrow> int list
     \<Rightarrow> ('e + (int \<times> 's) list) \<times> 'd shared_input" where
  "sequential_jobs skl g [] = (Inr [], g)"
| "sequential_jobs skl g (j # js) =
     (case train_and_score_model skl (X_train g) (X_test g) (y_train g) (y_test g)
             (8 + 4 * j) of
        (Inl e, a, b, c, d) \<Rightarrow>
          (Inl e, \<lparr>X_train = a, X_test = b, y_train = c, y_test = d\<rparr>)
      | (Inr r, a, b, c, d) \<Rightarrow>
          (case sequential_jobs skl \<lparr>X_train = a, X_test = b, y_train = c, y_test = d\<rparr> js of
             (Inl e, g') \<Rightarrow> (Inl e, g')
           | (Inr rs, g') \<Rightarrow> (Inr (r # rs), g')))"

definition run_sequential ::
  "('d, 'm, 'p, 's, 'e) sklearn \<Rightarrow> 'd shared_input \<Rightarrow> int
     \<Rightarrow> ('e + (int \<times> 's) list) \<times> 'd shared_input" where
  "run_sequential skl g n_models = sequential_jobs skl g (range_py n_models)"

section \<open>The concurrency substrate\<close>

text \<open>
  Modelled from the spec: Ray itself (\<open>ray.put\<close>, \<open>f.remote\<close>, \<open>ray.get\<close>) is an external
  library, not part of the notebook, so its three primitives follow the specification's
  sections 6 and 9: \<open>put\<close> stores a value and returns a reference to it; \<open>submit\<close> returns
  a handle at once, without running the job; a handle is \<open>Pending\<close>, \<open>Resolved\<close> with a
  value or \<open>Failed\<close> with an error; \<open>collect\<close> blocks until every handle has resolved and
  folds the handles, in the order of the list, into the results or the failure.
\<close>

datatype ('r, 'e) handle = Pending | Resolved 'r | Failed 'e

text \<open>
  The runtime: the object store (an object reference is an index into it) and the
  submitted tasks, each with the state of its handle (a handle's id is the task's index).
\<close>

record ('d, 't, 'r, 'e) ray =
  object_store :: "'d list"
  tasks :: "('t \<times> ('r, 'e) handle) list"

text \<open>Modelled from the spec: a fresh runtime, as \<open>ray.init()\<close> starts it.\<close>

definition ray_init :: "('d, 't, 'r, 'e) ray" where
  "ray_init = \<lparr>object_store = [], tasks = []\<rparr>"

text \<open>
  Modelled from the spec: \<open>ray.put\<close>, the shared-store primitive. It stores the value and
  returns a reference that submitted jobs can use.
\<close>

definition ray_put :: "'d \<Rightarrow> ('d, 't, 'r, 'e) ray \<Rightarrow> nat \<times> ('d, 't, 'r, 'e) ray" where
  "ray_put v rt = (length (object_store rt), rt\<lparr>object_store := object_store rt @ [v]\<rparr>)"

text \<open>The object behind a reference, if the store holds one.\<close>

definition deref :: "'d list \<Rightarrow> nat \<Rightarrow> 'd option" where
  "deref store r = (if r < length store then Some (store ! r) else None)"

text \<open>
  Modelled from the spec: \<open>f.remote(...)\<close>, the submission primitive. It records the task
  with a pending handle and returns the handle at once; nothing is run.
\<close>

definition remote :: "'t \<Rightarrow> ('d, 't, 'r, 'e) ray \<Rightarrow> nat \<times> ('d, 't, 'r, 'e) ray" where
  "remote t rt = (length (tasks rt), rt\<lparr>tasks := tasks rt @ [(t, Pending)]\<rparr>)"

text \<open>
  Modelled from the spec: a worker runs task \<open>i\<close>. A pending task whose arguments are all
  in the object store gets the outcome of its body \<open>f\<close>; a task already run, a task
  waiting for an argument and an index that names no task leave the runtime as it is.
  The object store is never written by a task: a task works on its own view of the
  objects, and what it does to that view is not written back.
\<close>

definition run_task ::
  "('d list \<Rightarrow> 't \<Rightarrow> ('r, 'e) handle option) \<Rightarrow> nat \<Rightarrow> ('d, 't, 'r, 'e) ray
     \<Rightarrow> ('d, 't, 'r, 'e) ray" where
  "run_task f i rt =
     (if i < length (tasks rt) then
        (case tasks rt ! i of
           (t, Pending) \<Rightarrow>
             (case f (object_store rt) t of
                None \<Rightarrow> rt
              | Some h \<Rightarrow> rt\<lparr>tasks := (tasks rt)[i := (t, h)]\<rparr>)
         | (t, Resolved v) \<Rightarrow> rt
         | (t, Failed e) \<Rightarrow> rt)
      else rt)"

text \<open>
  Modelled from the spec: the order in which the workers pick tasks up is the scheduler's
  choice, and the order of completion is unspecified. A schedule is the list of task
  indices in the order they are picked.
\<close>

definition run_schedule ::
  "('d list \<Rightarrow> 't \<Rightarrow> ('r, 'e) handle option) \<Rightarrow> nat list \<Rightarrow> ('d, 't, 'r, 'e) ray
     \<Rightarrow> ('d, 't, 'r, 'e) ray" where
  "run_schedule f sched rt = fold (run_task f) sched rt"

text \<open>
  Modelled from the spec: \<open>ray.get\<close> on a list of handles, the collection primitive. It
  blocks until every handle has resolved. \<open>None\<close>: some handle is still pending (or names
  no task), so the call does not return. Otherwise the values in the order of the list,
  or the error of the first failed handle of the list.
\<close>

fun ray_get :: "('d, 't, 'r, 'e) ray \<Rightarrow> nat list \<Rightarrow> ('e + 'r list) option" where
  "ray_get rt [] = Some (Inr [])"
| "ray_get rt (h # hs) =
     (if h < length (tasks rt) then
        (case snd (tasks rt ! h) of
           Pending \<Rightarrow> None
         | Failed e \<Rightarrow>
             (case ray_get rt hs of None \<Rightarrow> None | Some r \<Rightarrow> Some (Inl e))
         | Resolved v \<Rightarrow>
             (case ray_get rt hs of
                None \<Rightarrow> None
              | Some (Inl e) \<Rightarrow> Some (Inl e)
              | Some (Inr vs) \<Rightarrow> Some (Inr (v # vs))))
      else None)"

section \<open>The concurrent runner\<close>

text \<open>
  The cell that puts the four frames into the object store, and the globals
  \<open>X_train_ref, X_test_ref, y_train_ref, y_test_ref\<close> it assigns.
\<close>

record shared_refs =
  X_train_ref :: nat
  X_test_ref :: nat
  y_train_ref :: nat
  y_test_ref :: nat

definition put_shared_input ::
  "'d shared_input \<Rightarrow> ('d, 't, 'r, 'e) ray \<Rightarrow> shared_refs \<times> ('d, 't, 'r, 'e) ray" where
  "put_shared_input g rt =
     (let (r1, rt1) = ray_put (X_train g) rt;
          (r2, rt2) = ray_put (X_test g) rt1;
          (r3, rt3) = ray_put (y_train g) rt2;
          (r4, rt4) = ray_put (y_test g) rt3
      in (\<lparr>X_train_ref = r1, X_test_ref = r2, y_train_ref = r3, y_test_ref = r4\<rparr>, rt4))"

text \<open>The keyword arguments of one \<open>train_and_score_model.remote(...)\<close> call.\<close>

record remote_args =
  train_set_ref :: nat
  test_set_ref :: nat
  train_labels_ref :: nat
  test_labels_ref :: nat
  n_estimators_arg :: int

text \<open>
  The \<open>@ray.remote\<close> version of \<open>train_and_score_model\<close>: the same body, run by a worker on
  the objects behind the four references. \<open>None\<close>: an argument is not in the store.
\<close>

definition train_and_score_model_remote ::
  "('d, 'm, 'p, 's, 'e) sklearn \<Rightarrow> 'd list \<Rightarrow> remote_args
     \<Rightarrow> (int \<times> 's, 'e) handle option" where
  "train_and_score_model_remote skl store args =
     (case (deref store (train_set_ref args), deref store (test_set_ref args),
            deref store (train_labels_ref args), deref store (test_labels_ref args)) of
        (Some train_set, Some test_set, Some train_labels, Some test_labels) \<Rightarrow>
          (case fst (train_and_score_model skl train_set test_set train_labels test_labels
                       (n_estimators_arg args)) of
             Inl e \<Rightarrow> Some (Failed e)
           | Inr r \<Rightarrow> Some (Resolved r))
      | _ \<Rightarrow> None)"

text \<open>The list comprehension of \<open>run_parallel\<close>: one \<open>.remote\<close> call per \<open>j\<close>, in order.\<close>

fun remote_calls ::
  "shared_refs \<Rightarrow> int list \<Rightarrow> ('d, remote_args, 'r, 'e) ray
     \<Rightarrow> nat list \<times> ('d, remote_args, 'r, 'e) ray" where
  "remote_calls refs [] rt = ([], rt)"
| "remote_calls refs (j # js) rt =
     (let (h, rt') =
            remote \<lparr>train_set_ref = X_train_ref refs, test_set_ref = X_test_ref refs,
                    train_labels_ref = y_train_ref refs, test_labels_ref = y_test_ref refs,
                    n_estimators_arg = 8 + 4 * j\<rparr> rt;
          (hs, rt'') = remote_calls refs js rt'
      in (h # hs, rt''))"

text \<open>
  \<open>run_parallel\<close>: submit every job, then \<open>ray.get\<close> the handles. The workers run tasks in
  the order \<open>sched\<close> the scheduler chose, and \<open>ray.get\<close> returns once they have resolved
  every handle. The result is \<open>None\<close> when \<open>ray.get\<close> does not return under that schedule;
  the runtime is returned with it. A task only reads the object store, so a task that a
  worker starts while later jobs are still being submitted has the outcome it has in the
  schedule.
\<close>

definition run_parallel ::
  "('d, 'm, 'p, 's, 'e) sklearn \<Rightarrow> nat list \<Rightarrow> shared_refs
     \<Rightarrow> ('d, remote_args, int \<times> 's, 'e) ray \<Rightarrow> int
     \<Rightarrow> ('e + (int \<times> 's) list) option \<times> ('d, remote_args, int \<times> 's, 'e) ray" where
  "run_parallel skl sched refs rt n_models =
     (let (results_ref, rt1) = remote_calls refs (range_py n_models) rt;
          rt2 = run_schedule (train_and_score_model_remote skl) sched rt1
      in (ray_get rt2 results_ref, rt2))"

section \<open>Notions used to state the properties\<close>

text \<open>\<open>NUM_MODELS = 20\<close>.\<close>

definition NUM_MODELS :: int where
  "NUM_MODELS = 20"

text \<open>The values of \<open>n_estimators\<close> that the comprehension of either runner generates.\<close>

definition job_specs :: "int \<Rightarrow> int list" where
  "job_specs n_models = map (\<lambda>j. 8 + 4 * j) (range_py n_models)"

text \<open>The arguments of the \<open>j\<close>-th \<open>.remote\<close> call of \<open>run_parallel\<close>.\<close>

definition remote_args_of :: "shared_refs \<Rightarrow> int \<Rightarrow> remote_args" where
  "remote_args_of refs j =
     \<lparr>train_set_ref = X_train_ref refs, test_set_ref = X_test_ref refs,
      train_labels_ref = y_train_ref refs, test_labels_ref = y_test_ref refs,
      n_estimators_arg = 8 + 4 * j\<rparr>"

text \<open>
  The external operations are read-only when each leaves its frame arguments as they
  were: the specification's contract for the job executor.
\<close>

definition read_only :: "('d, 'm, 'p, 's, 'e) sklearn \<Rightarrow> bool" where
  "read_only skl \<longleftrightarrow>
     (\<forall>m a b. snd (fit skl m a b) = (a, b)) \<and>
     (\<forall>m a. snd (predict skl m a) = a) \<and>
     (\<forall>a p. snd (mean_squared_error skl a p) = a)"

text \<open>The outcome of one job on the shared input \<open>g\<close>.\<close>

definition job_result ::
  "('d, 'm, 'p, 's, 'e) sklearn \<Rightarrow> 'd shared_input \<Rightarrow> int \<Rightarrow> 'e + int \<times> 's" where
  "job_result skl g n =
     fst (train_and_score_model skl (X_train g) (X_test g) (y_train g) (y_test g) n)"

text \<open>A list of outcomes as one outcome: the first error, or all the values.\<close>

fun first_error :: "('e + 'r) list \<Rightarrow> 'e + 'r list" where
  "first_error [] = Inr []"
| "first_error (Inl e # xs) = Inl e"
| "first_error (Inr r # xs) =
     (case first_error xs of Inl e \<Rightarrow> Inl e | Inr rs \<Rightarrow> Inr (r # rs))"

text \<open>A handle as an outcome, and the state a task's handle has after the task ran.\<close>

fun handle_outcome :: "('r, 'e) handle \<Rightarrow> ('e + 'r) option" where
  "handle_outcome Pending = None"
| "handle_outcome (Resolved v) = Some (Inr v)"
| "handle_outcome (Failed e) = Some (Inl e)"

definition after_run ::
  "('d list \<Rightarrow> 't \<Rightarrow> ('r, 'e) handle option) \<Rightarrow> 'd list \<Rightarrow> 't \<times> ('r, 'e) handle
     \<Rightarrow> 't \<times> ('r, 'e) handle" where
  "after_run f store p =
     (case p of
        (t, Pending) \<Rightarrow> (case f store t of None \<Rightarrow> (t, Pending) | Some h \<Rightarrow> (t, h))
      | (t, Resolved v) \<Rightarrow> (t, Resolved v)
      | (t, Failed e) \<Rightarrow> (t, Failed e))"

text \<open>The references point at the frames of \<open>g\<close> in the store of the runtime.\<close>

definition refs_hold ::
  "('d, 't, 'r, 'e) ray \<Rightarrow> shared_refs \<Rightarrow> 'd shared_input \<Rightarrow> bool" where
  "refs_hold rt refs g \<longleftrightarrow>
     deref (object_store rt) (X_train_ref refs) = Some (X_train g) \<and>
     deref (object_store rt) (X_test_ref refs) = Some (X_test g) \<and>
     deref (object_store rt) (y_train_ref refs) = Some (y_train g) \<and>
     deref (object_store rt) (y_test_ref refs) = Some (y_test g)"

text \<open>The schedule runs every task that \<open>run_parallel\<close> submits for \<open>n_models\<close> jobs.\<close>

definition runs_all :: "nat list \<Rightarrow> ('d, 't, 'r, 'e) ray \<Rightarrow> int \<Rightarrow> bool" where
  "runs_all sched rt n_models \<longleftrightarrow>
     (\<forall>j < nat n_models. length (tasks rt) + j \<in> set sched)"

text \<open>The runtime after \<open>run_parallel\<close> has submitted its \<open>n_models\<close> jobs.\<close>

definition submitted ::
  "shared_refs \<Rightarrow> ('d, remote_args, 'r, 'e) ray \<Rightarrow> int \<Rightarrow> ('d, remote_args, 'r, 'e) ray" where
  "submitted refs rt n_models =
     rt\<lparr>tasks := tasks rt @ map (\<lambda>j. (remote_args_of refs j, Pending)) (range_py n_models)\<rparr>"

text \<open>
  A small instance to evaluate the runners on: frames are integers, the model is its
  \<open>n_estimators\<close>, \<open>fit\<close> raises for the model \<open>bad\<close> (the exception carries the
  model), a prediction is the model plus the test frame, and the score is the squared
  difference to the label.
\<close>

definition toy_sklearn :: "int \<Rightarrow> (int, int, int, int, int) sklearn" where
  "toy_sklearn bad =
     \<lparr>RandomForestRegressor = (\<lambda>n seed. n),
      fit = (\<lambda>m a b. (if m = bad then Inl m else Inr m, a, b)),
      predict = (\<lambda>m a. (Inr (m + a), a)),
      mean_squared_error = (\<lambda>a p. (Inr ((a - p) * (a - p)), a))\<rparr>"

definition toy_input :: "int shared_input" where
  "toy_input = \<lparr>X_train = 1, X_test = - 16, y_train = 2, y_test = 0\<rparr>"

text \<open>The runtime and the references after the four \<open>ray.put\<close> calls on a fresh runtime.\<close>

definition toy_runtime :: "(int, remote_args, int \<times> int, int) ray" where
  "toy_runtime = snd (put_shared_input toy_input ray_init)"

definition toy_refs :: shared_refs where
  "toy_refs =
     fst (put_shared_input toy_input (ray_init :: (int, remote_args, int \<times> int, int) ray))"


text \<open>
  An instance that records the calls: frames are lists of integers, the model is its
  \<open>n_estimators\<close>, and \<open>fit\<close> appends the model to the training frame. After a run the
  training frame holds the values of \<open>n_estimators\<close> the job was called with, in the order
  of the calls.
\<close>

definition recording_sklearn :: "(int list, int, int, int, unit) sklearn" where
  "recording_sklearn =
     \<lparr>RandomForestRegressor = (\<lambda>n seed. n),
      fit = (\<lambda>m a b. (Inr m, a @ [m], b)),
      predict = (\<lambda>m a. (Inr m, a)),
      mean_squared_error = (\<lambda>a p. (Inr p, a))\<rparr>"

text \<open>
  The values of \<open>n_estimators\<close> that \<open>run_sequential\<close> calls the job with, in call order:
  what the recording instance leaves in an empty training frame.
\<close>

definition sequential_params :: "int \<Rightarrow> int list" where
  "sequential_params n_models =
     X_train (snd (run_sequential recording_sklearn
                     \<lparr>X_train = [], X_test = [], y_train = [], y_test = []\<rparr> n_models))"

text \<open>
  The values of \<open>n_estimators\<close> of the tasks that \<open>run_parallel\<close> submits to the runtime
  \<open>rt\<close>, in the order of submission.
\<close>

definition parallel_params ::
  "shared_refs \<Rightarrow> ('d, remote_args, 'r, 'e) ray \<Rightarrow> int \<Rightarrow> int list" where
  "parallel_params refs rt n_models =
     map (n_estimators_arg \<circ> fst)
       (drop (length (tasks rt)) (tasks (snd (remote_calls refs (range_py n_models) rt))))"

section \<open>Built-ins\<close>

lemma length_range_py [simp]: "length (range_py n) = nat n"
  by (simp add: range_py_def)

lemma nth_range_py [simp]: "j < nat n \<Longrightarrow> range_py n ! j = int j"
  by (simp add: range_py_def)

lemma range_py_nonpos [simp]: "n \<le> 0 \<Longrightarrow> range_py n = []"
  by (simp add: range_py_def)

lemma min_scan_mem: "min_scan key b xs \<in> set (b # xs)"
  by (induction xs arbitrary: b) auto

lemma min_scan_first_min:
  fixes key :: "'a \<Rightarrow> 'k::linorder"
  shows "\<exists>pre post. b # xs = pre @ min_scan key b xs # post \<and>
           (\<forall>y \<in> set pre. key (min_scan key b xs) < key y) \<and>
           (\<forall>y \<in> set post. key (min_scan key b xs) \<le> key y)"
proof (induction xs arbitrary: b)
  case Nil
  have "[b] = [] @ min_scan key b [] # [] \<and>
        (\<forall>y \<in> set []. key (min_scan key b []) < key y) \<and>
        (\<forall>y \<in> set []. key (min_scan key b []) \<le> key y)"
    by simp
  then show ?case by blast
next
  case (Cons x xs)
  let ?b = "if key x < key b then x else b"
  let ?m = "min_scan key ?b xs"
  from Cons.IH [of ?b] obtain pre post where
    split: "?b # xs = pre @ ?m # post"
    and before: "\<forall>y \<in> set pre. key ?m < key y"
    and after: "\<forall>y \<in> set post. key ?m \<le> key y"
    by blast
  have m: "min_scan key b (x # xs) = ?m" by simp
  show ?case
  proof (cases pre)
    case Nil
    with split have eq: "?m = ?b" and post: "post = xs" by auto
    show ?thesis
    proof (cases "key x < key b")
      case True
      with eq have "?m = x" by simp
      with True post after m have
        "b # x # xs = [b] @ min_scan key b (x # xs) # xs \<and>
         (\<forall>y \<in> set [b]. key (min_scan key b (x # xs)) < key y) \<and>
         (\<forall>y \<in> set xs. key (min_scan key b (x # xs)) \<le> key y)"
        by simp
      then show ?thesis by blast
    next
      case False
      with eq have mb: "?m = b" by simp
      with False post after m have
        "b # x # xs = [] @ min_scan key b (x # xs) # (x # xs) \<and>
         (\<forall>y \<in> set []. key (min_scan key b (x # xs)) < key y) \<and>
         (\<forall>y \<in> set (x # xs). key (min_scan key b (x # xs)) \<le> key y)"
        by auto
      then show ?thesis by blast
    qed
  next
    case (Cons p pre')
    with split have p: "p = ?b" and xs: "xs = pre' @ ?m # post" by auto
    from before Cons p have lt: "key ?m < key ?b" by simp
    then have "key ?m < key b" "key ?m < key x" by (auto split: if_splits)
    with before Cons xs after m have
      "b # x # xs = (b # x # pre') @ min_scan key b (x # xs) # post \<and>
       (\<forall>y \<in> set (b # x # pre'). key (min_scan key b (x # xs)) < key y) \<and>
       (\<forall>y \<in> set post. key (min_scan key b (x # xs)) \<le> key y)"
      by auto
    then show ?thesis by blast
  qed
qed

lemma job_specs_20:
  "job_specs 20 = [8, 12, 16, 20, 24, 28, 32, 36, 40, 44, 48, 52, 56, 60, 64, 68, 72, 76, 80, 84]"
  by code_simp

lemma remote_calls_eq:
  "remote_calls refs js rt =
     ([length (tasks rt)..<length (tasks rt) + length js],
      rt\<lparr>tasks := tasks rt @ map (\<lambda>j. (remote_args_of refs j, Pending)) js\<rparr>)"
proof (induction js arbitrary: rt)
  case Nil
  show ?case by simp
next
  case (Cons j js)
  show ?case
    by (simp add: Cons.IH remote_def remote_args_of_def upt_conv_Cons del: upt_Suc)
qed

section \<open>The job and the sequential runner\<close>

lemma train_and_score_model_echo:
  "train_and_score_model skl a b c d n = (Inr r, st) \<Longrightarrow> fst r = n"
  by (auto simp: train_and_score_model_def Let_def split: prod.splits sum.splits)

lemma train_and_score_model_echo_fst:
  "fst (train_and_score_model skl a b c d n) = Inr r \<Longrightarrow> fst r = n"
  by (metis train_and_score_model_echo prod.collapse)

lemma job_result_echo: "job_result skl g n = Inr r \<Longrightarrow> fst r = n"
  unfolding job_result_def
  by (metis train_and_score_model_echo prod.collapse)

lemma read_only_fit: "read_only skl \<Longrightarrow> fit skl m a b = (x, a', b') \<Longrightarrow> a' = a \<and> b' = b"
  by (metis read_only_def snd_conv prod.inject)

lemma read_only_predict: "read_only skl \<Longrightarrow> predict skl m a = (x, a') \<Longrightarrow> a' = a"
  by (metis read_only_def snd_conv)

lemma read_only_mse: "read_only skl \<Longrightarrow> mean_squared_error skl a p = (x, a') \<Longrightarrow> a' = a"
  by (metis read_only_def snd_conv)

lemma train_and_score_model_read_only:
  assumes "read_only skl"
  shows "snd (train_and_score_model skl a b c d n) = (a, b, c, d)"
  using read_only_fit [OF assms] read_only_predict [OF assms] read_only_mse [OF assms]
  by (fastforce simp: train_and_score_model_def Let_def split: prod.splits sum.splits)

lemma sequential_jobs_read_only:
  assumes "read_only skl"
  shows "sequential_jobs skl g js
           = (first_error (map (\<lambda>j. job_result skl g (8 + 4 * j)) js), g)"
proof (induction js)
  case Nil
  show ?case by simp
next
  case (Cons j js)
  let ?call = "train_and_score_model skl (X_train g) (X_test g) (y_train g) (y_test g)
                 (8 + 4 * j)"
  have "snd ?call = (X_train g, X_test g, y_train g, y_test g)"
    by (rule train_and_score_model_read_only [OF assms])
  then obtain x where call: "?call = (x, X_train g, X_test g, y_train g, y_test g)"
    by (metis prod.collapse)
  then have x: "job_result skl g (8 + 4 * j) = x"
    by (simp add: job_result_def)
  have g: "\<lparr>X_train = X_train g, X_test = X_test g, y_train = y_train g, y_test = y_test g\<rparr>
             = g"
    by simp
  show ?case
  proof (cases x)
    case (Inl e)
    with call x show ?thesis by simp
  next
    case (Inr r)
    with call x Cons.IH show ?thesis
      by (cases "first_error (map (\<lambda>j. job_result skl g (8 + 4 * j)) js)")
        (simp_all add: g)
  qed
qed

lemma sequential_jobs_echo:
  "fst (sequential_jobs skl g js) = Inr rs \<Longrightarrow> map fst rs = map (\<lambda>j. 8 + 4 * j) js"
proof (induction js arbitrary: g rs)
  case Nil
  then show ?case by simp
next
  case (Cons j js)
  obtain x a b c d where
    call: "train_and_score_model skl (X_train g) (X_test g) (y_train g) (y_test g)
             (8 + 4 * j) = (x, a, b, c, d)"
    by (metis prod_cases5)
  from Cons.prems call obtain r where x: "x = Inr r"
    by (cases x) auto
  obtain y g' where
    rest: "sequential_jobs skl \<lparr>X_train = a, X_test = b, y_train = c, y_test = d\<rparr> js
             = (y, g')"
    by force
  from Cons.prems call x rest obtain rs' where y: "y = Inr rs'" and rs: "rs = r # rs'"
    by (cases y) auto
  from rest y have "fst (sequential_jobs skl \<lparr>X_train = a, X_test = b, y_train = c,
                           y_test = d\<rparr> js) = Inr rs'"
    by simp
  then have "map fst rs' = map (\<lambda>j. 8 + 4 * j) js" by (rule Cons.IH)
  moreover from call x have "fst r = 8 + 4 * j"
    by (auto dest: train_and_score_model_echo)
  ultimately show ?case using rs by simp
qed

lemma first_error_map_Inr [simp]: "first_error (map Inr rs) = Inr rs"
  by (induction rs) simp_all

lemma first_error_Inr_D: "first_error xs = Inr rs \<Longrightarrow> xs = map Inr rs"
proof (induction xs arbitrary: rs rule: first_error.induct)
  case 1
  then show ?case by simp
next
  case (2 e xs)
  then show ?case by simp
next
  case (3 r xs)
  from "3.prems" obtain rs' where "first_error xs = Inr rs'" and "rs = r # rs'"
    by (cases "first_error xs") auto
  with "3.IH" show ?case by simp
qed

lemma first_error_Inr: "first_error xs = Inr rs \<longleftrightarrow> xs = map Inr rs"
  using first_error_Inr_D by fastforce

lemma first_error_Inl:
  "k < length xs \<Longrightarrow> xs ! k = Inl e \<Longrightarrow> \<forall>j < k. \<exists>r. xs ! j = Inr r
     \<Longrightarrow> first_error xs = Inl e"
proof (induction xs arbitrary: k rule: first_error.induct)
  case 1
  then show ?case by simp
next
  case (2 e' xs)
  then show ?case by (cases k) auto
next
  case (3 r xs)
  show ?case
  proof (cases k)
    case 0
    with 3 show ?thesis by simp
  next
    case (Suc k')
    with "3.prems" have "k' < length xs" "xs ! k' = Inl e" by simp_all
    moreover have "\<forall>j < k'. \<exists>r. xs ! j = Inr r"
      using "3.prems"(3) Suc by (metis Suc_less_eq nth_Cons_Suc)
    ultimately have "first_error xs = Inl e" by (rule "3.IH")
    then show ?thesis by simp
  qed
qed

lemma first_error_fails:
  "k < length xs \<Longrightarrow> xs ! k = Inl e \<Longrightarrow> \<exists>e'. first_error xs = Inl e'"
proof (induction xs arbitrary: k rule: first_error.induct)
  case 1
  then show ?case by simp
next
  case (2 e' xs)
  then show ?case by simp
next
  case (3 r xs)
  then show ?case by (cases k) (auto split: sum.splits)
qed

section \<open>The runtime and the concurrent runner\<close>

lemma after_run_idem: "after_run f store (after_run f store p) = after_run f store p"
  by (auto simp: after_run_def split: prod.splits handle.splits option.splits)

lemma run_task_eq:
  "run_task f i rt = rt\<lparr>tasks := (tasks rt)[i := after_run f (object_store rt) (tasks rt ! i)]\<rparr>"
proof (cases "i < length (tasks rt)")
  case True
  obtain t h where th: "tasks rt ! i = (t, h)" by (cases "tasks rt ! i")
  have "(tasks rt)[i := tasks rt ! i] = tasks rt" by simp
  with th have same: "rt\<lparr>tasks := (tasks rt)[i := (t, h)]\<rparr> = rt" by simp
  show ?thesis
  proof (cases h)
    case Pending
    show ?thesis
    proof (cases "f (object_store rt) t")
      case None
      with True th Pending same show ?thesis
        by (simp add: run_task_def after_run_def)
    next
      case (Some h')
      with True th Pending show ?thesis
        by (simp add: run_task_def after_run_def)
    qed
  next
    case (Resolved v)
    with True th same show ?thesis
      by (simp add: run_task_def after_run_def)
  next
    case (Failed e)
    with True th same show ?thesis
      by (simp add: run_task_def after_run_def)
  qed
next
  case False
  then have "length (tasks rt) \<le> i" by simp
  then have "(tasks rt)[i := after_run f (object_store rt) (tasks rt ! i)] = tasks rt"
    by (rule list_update_beyond)
  with False show ?thesis by (simp add: run_task_def)
qed

lemma run_schedule_store [simp]: "object_store (run_schedule f sched rt) = object_store rt"
  unfolding run_schedule_def
  by (induction sched arbitrary: rt) (simp_all add: run_task_eq)

lemma run_schedule_length [simp]:
  "length (tasks (run_schedule f sched rt)) = length (tasks rt)"
  unfolding run_schedule_def
  by (induction sched arbitrary: rt) (simp_all add: run_task_eq)

lemma run_schedule_nth:
  "i < length (tasks rt) \<Longrightarrow>
     tasks (run_schedule f sched rt) ! i
       = (if i \<in> set sched then after_run f (object_store rt) (tasks rt ! i)
          else tasks rt ! i)"
  unfolding run_schedule_def
proof (induction sched arbitrary: rt)
  case Nil
  show ?case by simp
next
  case (Cons i0 sched)
  let ?rt1 = "run_task f i0 rt"
  have len: "i < length (tasks ?rt1)" using Cons.prems by (simp add: run_task_eq)
  have store: "object_store ?rt1 = object_store rt" by (simp add: run_task_eq)
  have nth1: "tasks ?rt1 ! i
                = (if i = i0 then after_run f (object_store rt) (tasks rt ! i)
                   else tasks rt ! i)"
    using Cons.prems by (simp add: run_task_eq nth_list_update)
  have ih: "tasks (fold (run_task f) sched ?rt1) ! i
          = (if i \<in> set sched then after_run f (object_store rt) (tasks ?rt1 ! i)
             else tasks ?rt1 ! i)"
    using Cons.IH [OF len] store by simp
  show ?case
  proof (cases "i = i0")
    case True
    with ih nth1 show ?thesis by (simp add: after_run_idem)
  next
    case False
    with ih nth1 show ?thesis by simp
  qed
qed

lemma ray_get_all:
  "list_all2 (\<lambda>h out. h < length (tasks rt) \<and> handle_outcome (snd (tasks rt ! h)) = Some out)
     hs outs
   \<Longrightarrow> ray_get rt hs = Some (first_error outs)"
proof (induction rule: list_all2_induct)
  case Nil
  show ?case by simp
next
  case (Cons h hs out outs)
  show ?case
  proof (cases "snd (tasks rt ! h)")
    case Pending
    with Cons.hyps show ?thesis by simp
  next
    case (Resolved v)
    with Cons.hyps have "out = Inr v" by simp
    with Cons.hyps Cons.IH Resolved show ?thesis
      by (cases "first_error outs") simp_all
  next
    case (Failed e)
    with Cons.hyps have "out = Inl e" by simp
    with Cons.hyps Cons.IH Failed show ?thesis by simp
  qed
qed

lemma ray_get_Inr:
  "ray_get rt hs = Some (Inr rs)
   \<Longrightarrow> list_all2 (\<lambda>h r. h < length (tasks rt) \<and> snd (tasks rt ! h) = Resolved r) hs rs"
proof (induction hs arbitrary: rs)
  case Nil
  then show ?case by simp
next
  case (Cons h hs)
  then show ?case
    by (auto split: if_splits handle.splits option.splits sum.splits)
qed

lemma remote_outcome:
  "refs_hold rt refs g \<Longrightarrow>
     train_and_score_model_remote skl (object_store rt) (remote_args_of refs j)
       = Some (case job_result skl g (8 + 4 * j) of Inl e \<Rightarrow> Failed e | Inr r \<Rightarrow> Resolved r)"
  by (simp add: refs_hold_def train_and_score_model_remote_def remote_args_of_def
        job_result_def split: sum.splits)

lemma remote_echo:
  "train_and_score_model_remote skl store args = Some (Resolved r)
   \<Longrightarrow> fst r = n_estimators_arg args"
  by (auto simp: train_and_score_model_remote_def
        split: option.splits sum.splits dest: train_and_score_model_echo_fst)

lemma run_parallel_unfold:
  "run_parallel skl sched refs rt n =
     (ray_get (run_schedule (train_and_score_model_remote skl) sched (submitted refs rt n))
        [length (tasks rt)..<length (tasks rt) + nat n],
      run_schedule (train_and_score_model_remote skl) sched (submitted refs rt n))"
  by (simp add: run_parallel_def remote_calls_eq submitted_def Let_def)

lemma submitted_simps [simp]:
  "object_store (submitted refs rt n) = object_store rt"
  "length (tasks (submitted refs rt n)) = length (tasks rt) + nat n"
  "j < nat n \<Longrightarrow> tasks (submitted refs rt n) ! (length (tasks rt) + j)
                   = (remote_args_of refs (int j), Pending)"
  by (simp_all add: submitted_def nth_append)

lemma run_parallel_task:
  assumes "j < nat n"
  shows "tasks (snd (run_parallel skl sched refs rt n)) ! (length (tasks rt) + j)
           = (if length (tasks rt) + j \<in> set sched
              then after_run (train_and_score_model_remote skl) (object_store rt)
                     (remote_args_of refs (int j), Pending)
              else (remote_args_of refs (int j), Pending))"
proof -
  have "length (tasks rt) + j < length (tasks (submitted refs rt n))"
    using assms by simp
  from run_schedule_nth [OF this] assms show ?thesis
    by (simp add: run_parallel_unfold)
qed

lemma run_parallel_result:
  assumes refs: "refs_hold rt refs g" and fair: "runs_all sched rt n"
  shows "fst (run_parallel skl sched refs rt n)
           = Some (first_error (map (\<lambda>j. job_result skl g (8 + 4 * j)) (range_py n)))"
proof -
  let ?rt2 = "snd (run_parallel skl sched refs rt n)"
  let ?L = "length (tasks rt)"
  have "list_all2
          (\<lambda>h out. h < length (tasks ?rt2) \<and> handle_outcome (snd (tasks ?rt2 ! h)) = Some out)
          [?L..<?L + nat n] (map (\<lambda>j. job_result skl g (8 + 4 * j)) (range_py n))"
  proof (rule list_all2_all_nthI)
    show "length [?L..<?L + nat n]
            = length (map (\<lambda>j. job_result skl g (8 + 4 * j)) (range_py n))"
      by simp
  next
    fix j
    assume "j < length [?L..<?L + nat n]"
    then have j: "j < nat n" by simp
    with fair have "?L + j \<in> set sched" by (simp add: runs_all_def)
    with run_parallel_task [OF j, of skl sched refs rt] remote_outcome [OF refs, of skl "int j"]
    have "handle_outcome (snd (tasks ?rt2 ! (?L + j))) = Some (job_result skl g (8 + 4 * int j))"
      by (simp add: after_run_def split: sum.splits)
    moreover have "?L + j < length (tasks ?rt2)"
      using j by (simp add: run_parallel_unfold)
    ultimately show
      "[?L..<?L + nat n] ! j < length (tasks ?rt2) \<and>
       handle_outcome (snd (tasks ?rt2 ! ([?L..<?L + nat n] ! j)))
         = Some (map (\<lambda>j. job_result skl g (8 + 4 * j)) (range_py n) ! j)"
      using j by simp
  qed
  from ray_get_all [OF this] show ?thesis
    by (simp add: run_parallel_unfold)
qed

lemma run_parallel_resolved:
  assumes "fst (run_parallel skl sched refs rt n) = Some (Inr rs)"
  shows "length rs = nat n"
    and "j < nat n \<Longrightarrow>
           train_and_score_model_remote skl (object_store rt) (remote_args_of refs (int j))
             = Some (Resolved (rs ! j))"
proof -
  let ?rt2 = "snd (run_parallel skl sched refs rt n)"
  let ?L = "length (tasks rt)"
  from assms have "ray_get ?rt2 [?L..<?L + nat n] = Some (Inr rs)"
    by (simp add: run_parallel_unfold)
  then have all: "list_all2 (\<lambda>h r. h < length (tasks ?rt2) \<and> snd (tasks ?rt2 ! h) = Resolved r)
                    [?L..<?L + nat n] rs"
    by (rule ray_get_Inr)
  then show len: "length rs = nat n"
    by (auto dest: list_all2_lengthD)
  assume j: "j < nat n"
  with all len have "snd (tasks ?rt2 ! ([?L..<?L + nat n] ! j)) = Resolved (rs ! j)"
    by (simp add: list_all2_conv_all_nth)
  with j have "snd (tasks ?rt2 ! (?L + j)) = Resolved (rs ! j)" by simp
  with run_parallel_task [OF j, of skl sched refs rt]
  show "train_and_score_model_remote skl (object_store rt) (remote_args_of refs (int j))
          = Some (Resolved (rs ! j))"
    by (auto simp: after_run_def split: if_splits option.splits)
qed

lemma run_parallel_echo:
  assumes "fst (run_parallel skl sched refs rt n) = Some (Inr rs)"
  shows "map fst rs = job_specs n"
proof (rule nth_equalityI)
  from run_parallel_resolved(1) [OF assms]
  show len: "length (map fst rs) = length (job_specs n)"
    by (simp add: job_specs_def)
  fix j
  assume "j < length (map fst rs)"
  with len have j: "j < nat n" by (simp add: job_specs_def)
  from remote_echo [OF run_parallel_resolved(2) [OF assms j]]
  have "fst (rs ! j) = 8 + 4 * int j" by (simp add: remote_args_of_def)
  with j run_parallel_resolved(1) [OF assms]
  show "map fst rs ! j = job_specs n ! j" by (simp add: job_specs_def)
qed

lemma range_py_3: "range_py 3 = [0, 1, 2]"
  by code_simp

section \<open>The result selector\<close>

text \<open>
  C1. On a non-empty ResultSet the selector returns an element whose score is minimal,
  and the first such element: every element before it has a strictly larger score. On
  the ResultSet \<open>[(8, 0.2983), (12, 0.2826), (16, 0.2761), (24, 0.2694)]\<close> it returns
  \<open>(24, 0.2694)\<close>. Scores are compared as elements of a linear order.
\<close>

theorem best_first_minimum:
  fixes mse_scores :: "(int \<times> 's::linorder) list"
  shows "(mse_scores \<noteq> [] \<longrightarrow>
            (\<exists>i < length mse_scores.
               best mse_scores = Inr (mse_scores ! i) \<and>
               (\<forall>j < length mse_scores. snd (mse_scores ! i) \<le> snd (mse_scores ! j)) \<and>
               (\<forall>j < i. snd (mse_scores ! i) < snd (mse_scores ! j)))) \<and>
         best [(8, 0.2983), (12, 0.2826), (16, 0.2761), (24, 0.2694 :: real)]
           = Inr (24, 0.2694)"
proof (intro conjI impI)
  assume "mse_scores \<noteq> []"
  then obtain b xs where bx: "mse_scores = b # xs" by (cases mse_scores) auto
  let ?m = "min_scan itemgetter_1 b xs"
  from min_scan_first_min [of b xs itemgetter_1] obtain pre post where
    split: "b # xs = pre @ ?m # post"
    and before: "\<forall>y \<in> set pre. itemgetter_1 ?m < itemgetter_1 y"
    and after: "\<forall>y \<in> set post. itemgetter_1 ?m \<le> itemgetter_1 y"
    by blast
  have at: "mse_scores ! length pre = ?m" using bx split by simp
  have len: "length pre < length mse_scores" using bx split by simp
  have sel: "best mse_scores = Inr (mse_scores ! length pre)"
    using at bx by (simp add: best_def min_py_def)
  have least: "snd ?m \<le> snd (mse_scores ! j)" if "j < length mse_scores" for j
  proof -
    from that have "mse_scores ! j \<in> set (pre @ ?m # post)"
      using bx split by (metis nth_mem)
    then show ?thesis
      using before after by (auto simp: itemgetter_1_def less_imp_le)
  qed
  have first: "snd ?m < snd (mse_scores ! j)" if "j < length pre" for j
  proof -
    from that have "mse_scores ! j = pre ! j" using bx split by (simp add: nth_append)
    with that have "mse_scores ! j \<in> set pre" by simp
    then show ?thesis using before by (simp add: itemgetter_1_def)
  qed
  show "\<exists>i < length mse_scores.
          best mse_scores = Inr (mse_scores ! i) \<and>
          (\<forall>j < length mse_scores. snd (mse_scores ! i) \<le> snd (mse_scores ! j)) \<and>
          (\<forall>j < i. snd (mse_scores ! i) < snd (mse_scores ! j))"
    using len sel least first at by (intro exI [of _ "length pre"]) simp
next
  show "best [(8, 0.2983), (12, 0.2826), (16, 0.2761), (24, 0.2694 :: real)]
          = Inr (24, 0.2694)"
    by (simp add: best_def min_py_def itemgetter_1_def)
qed

theorem best_first_minimum_witness:
  "([(8, 3), (12, 1), (16, 1)] :: (int \<times> int) list) \<noteq> [] \<and>
   best ([(8, 3), (12, 1), (16, 1)] :: (int \<times> int) list) = Inr (12, 1)"
proof -
  let ?xs = "[(8, 3), (12, 1), (16, 1)] :: (int \<times> int) list"
  have ne: "?xs \<noteq> []" by simp
  from best_first_minimum [where mse_scores = ?xs] ne
  obtain i where i: "i < length ?xs"
    and sel: "best ?xs = Inr (?xs ! i)"
    and least: "\<forall>j < length ?xs. snd (?xs ! i) \<le> snd (?xs ! j)"
    and first: "\<forall>j < i. snd (?xs ! i) < snd (?xs ! j)"
    by blast
  from i have "i = 0 \<or> i = 1 \<or> i = 2" by auto
  moreover have "i \<noteq> 0"
  proof
    assume "i = 0"
    with least [rule_format, of 1] have "snd (?xs ! 0) \<le> snd (?xs ! 1)" by simp
    then show False by simp
  qed
  moreover have "i \<noteq> 2"
  proof
    assume "i = 2"
    with first [rule_format, of 1] have "snd (?xs ! 2) < snd (?xs ! 1)" by simp
    then show False by simp
  qed
  ultimately have "i = 1" by blast
  with sel ne show ?thesis by simp
qed

text \<open>
  C4. Selecting from an empty ResultSet fails: \<open>min\<close> raises \<open>ValueError\<close>, the error the
  specification names EmptyResultSetError, and no value is returned.
\<close>

theorem best_empty: "best ([] :: (int \<times> 's::ord) list) = Inl ValueError"
  by (simp add: best_def min_py_def)

section \<open>The instance\<close>

lemma toy_read_only: "read_only (toy_sklearn bad)"
  by (simp add: read_only_def toy_sklearn_def)

lemma toy_runtime_eq: "toy_runtime = \<lparr>object_store = [1, - 16, 2, 0], tasks = []\<rparr>"
  by (simp add: toy_runtime_def put_shared_input_def ray_put_def ray_init_def toy_input_def)

lemma toy_refs_eq:
  "toy_refs = \<lparr>X_train_ref = 0, X_test_ref = 1, y_train_ref = 2, y_test_ref = 3\<rparr>"
  by (simp add: toy_refs_def put_shared_input_def ray_put_def ray_init_def)

lemma toy_refs_hold: "refs_hold toy_runtime toy_refs toy_input"
  by (simp add: refs_hold_def toy_runtime_eq toy_refs_eq toy_input_def deref_def)

lemma toy_runs_all: "runs_all [2, 0, 1] toy_runtime 3"
proof -
  have "j = 0 \<or> j = 1 \<or> j = 2" if "j < 3" for j :: nat
    using that by auto
  then show ?thesis
    by (auto simp: runs_all_def toy_runtime_eq)
qed

lemma toy_job_result:
  "job_result (toy_sklearn bad) toy_input n
     = (if n = bad then Inl n else Inr (n, (n - 16) * (n - 16)))"
  by (simp add: job_result_def train_and_score_model_def toy_sklearn_def toy_input_def
        algebra_simps)

lemma toy_sequential:
  "fst (run_sequential (toy_sklearn 0) toy_input 3) = Inr [(8, 64), (12, 16), (16, 0)]"
  unfolding run_sequential_def sequential_jobs_read_only [OF toy_read_only]
  by (simp add: range_py_3 toy_job_result)

section \<open>The generated job parameters\<close>

lemma recording_sequential_jobs:
  "sequential_jobs recording_sklearn g js
     = (Inr (map (\<lambda>j. (8 + 4 * j, 8 + 4 * j)) js),
        g\<lparr>X_train := X_train g @ map (\<lambda>j. 8 + 4 * j) js\<rparr>)"
proof (induction js arbitrary: g)
  case Nil
  show ?case by simp
next
  case (Cons j js)
  have call: "train_and_score_model recording_sklearn (X_train g) (X_test g) (y_train g)
                (y_test g) (8 + 4 * j)
              = (Inr (8 + 4 * j, 8 + 4 * j),
                 X_train g @ [8 + 4 * j], X_test g, y_train g, y_test g)"
    by (simp add: train_and_score_model_def recording_sklearn_def Let_def)
  show ?case
    by (simp add: call Cons.IH)
qed

lemma sequential_params_eq: "sequential_params n = job_specs n"
  by (simp add: sequential_params_def run_sequential_def recording_sequential_jobs
        job_specs_def)

lemma parallel_params_eq: "parallel_params refs rt n = job_specs n"
  by (simp add: parallel_params_def remote_calls_eq job_specs_def remote_args_of_def
        comp_def)

lemma job_specs_5: "job_specs 5 = [8, 12, 16, 20, 24]"
  by code_simp

text \<open>
  C3. The values of \<open>n_estimators\<close> that \<open>run_sequential\<close> calls the job with are generated
  from the count alone: the \<open>j\<close>-th is \<open>8 + 4 * j\<close>, there are as many as the count asks
  for, and for \<open>NUM_MODELS = 20\<close> they are \<open>8, 12, ..., 84\<close>. The tasks that \<open>run_parallel\<close>
  submits carry the same values in the same order. With read-only external operations
  the sequential runner returns the outcomes of the job at exactly these values, in
  this order, up to the first failure.
\<close>

theorem job_specs_values:
  "sequential_params NUM_MODELS =
     [8, 12, 16, 20, 24, 28, 32, 36, 40, 44, 48, 52, 56, 60, 64, 68, 72, 76, 80, 84] \<and>
   length (sequential_params NUM_MODELS) = 20 \<and>
   length (sequential_params n) = nat n \<and>
   (\<forall>j < nat n. sequential_params n ! j = 8 + 4 * int j) \<and>
   parallel_params refs rt n = sequential_params n \<and>
   (read_only skl \<longrightarrow>
      fst (run_sequential skl g n)
        = first_error (map (job_result skl g) (sequential_params n)))"
proof (intro conjI impI)
  show "sequential_params NUM_MODELS =
     [8, 12, 16, 20, 24, 28, 32, 36, 40, 44, 48, 52, 56, 60, 64, 68, 72, 76, 80, 84]"
    by (simp only: sequential_params_eq NUM_MODELS_def job_specs_20)
  show "length (sequential_params NUM_MODELS) = 20"
    by (simp add: sequential_params_eq NUM_MODELS_def job_specs_def)
  show "length (sequential_params n) = nat n"
    by (simp add: sequential_params_eq job_specs_def)
  show "\<forall>j < nat n. sequential_params n ! j = 8 + 4 * int j"
    by (simp add: sequential_params_eq job_specs_def)
  show "parallel_params refs rt n = sequential_params n"
    by (simp only: sequential_params_eq parallel_params_eq)
next
  assume ro: "read_only skl"
  show "fst (run_sequential skl g n)
          = first_error (map (job_result skl g) (sequential_params n))"
    unfolding run_sequential_def sequential_jobs_read_only [OF ro] sequential_params_eq
    by (simp add: job_specs_def comp_def)
qed

theorem job_specs_values_witness:
  "(2::nat) < nat 5 \<and> sequential_params 5 ! 2 = 16 \<and> length (sequential_params 5) = 5 \<and>
   parallel_params toy_refs toy_runtime 5 = [8, 12, 16, 20, 24] \<and>
   read_only (toy_sklearn 0) \<and>
   fst (run_sequential (toy_sklearn 0) toy_input 5)
     = Inr [(8, 64), (12, 16), (16, 0), (20, 16), (24, 64)]"
proof -
  have two: "(2::nat) < nat 5" by simp
  note inst = job_specs_values [of 5 toy_refs toy_runtime "toy_sklearn 0" toy_input]
  from inst have len: "length (sequential_params 5) = nat 5"
    and nth: "\<forall>j < nat 5. sequential_params 5 ! j = 8 + 4 * int j"
    and par: "parallel_params toy_refs toy_runtime 5 = sequential_params 5"
    and seq: "read_only (toy_sklearn 0) \<longrightarrow>
                fst (run_sequential (toy_sklearn 0) toy_input 5)
                  = first_error (map (job_result (toy_sklearn 0) toy_input)
                      (sequential_params 5))"
    by blast+
  from nth two have at: "sequential_params 5 ! 2 = 8 + 4 * int 2" by blast
  have params: "sequential_params 5 = [8, 12, 16, 20, 24]"
    by (simp only: sequential_params_eq job_specs_5)
  from seq toy_read_only [of 0]
  have "fst (run_sequential (toy_sklearn 0) toy_input 5)
          = first_error (map (job_result (toy_sklearn 0) toy_input) (sequential_params 5))"
    by blast
  then have run: "fst (run_sequential (toy_sklearn 0) toy_input 5)
                    = Inr [(8, 64), (12, 16), (16, 0), (20, 16), (24, 64)]"
    by (simp add: params toy_job_result)
  from par params have "parallel_params toy_refs toy_runtime 5 = [8, 12, 16, 20, 24]"
    by simp
  with two at len run toy_read_only [of 0] show ?thesis by simp
qed

section \<open>Equivalence of the two runners\<close>

text \<open>
  C2. On the same shared input, with the same generated job parameters, the concurrent
  runner returns what the sequential runner returns, whatever order the scheduler runs
  the tasks in: the same pairs in the same order. The external operations are read-only
  (the executor's contract), the references are those of the shared input, and the
  scheduler runs every submitted task.
\<close>

theorem runners_agree:
  assumes "read_only skl" and "refs_hold rt refs g" and "runs_all sched rt n"
  shows "fst (run_parallel skl sched refs rt n) = Some (fst (run_sequential skl g n))"
  using run_parallel_result [OF assms(2,3)]
  by (simp add: run_sequential_def sequential_jobs_read_only [OF assms(1)])

theorem runners_agree_witness:
  "read_only (toy_sklearn 0) \<and> refs_hold toy_runtime toy_refs toy_input \<and>
   runs_all [2, 0, 1] toy_runtime 3 \<and>
   fst (run_parallel (toy_sklearn 0) [2, 0, 1] toy_refs toy_runtime 3)
     = Some (Inr [(8, 64), (12, 16), (16, 0)])"
  using runners_agree [OF toy_read_only toy_refs_hold toy_runs_all, of 0]
    toy_read_only [of 0] toy_refs_hold toy_runs_all toy_sequential
  by simp

section \<open>A negative count\<close>

text \<open>
  C10. For a negative \<open>n_models\<close> both runners return the empty ResultSet, as they do for
  zero: \<open>range\<close> of a negative number is empty, nothing is submitted, and \<open>ray.get\<close> of
  no handles returns at once, under every schedule.
\<close>

theorem negative_count_empty:
  assumes "n < 0"
  shows "fst (run_sequential skl g n) = Inr [] \<and>
         fst (run_parallel skl sched refs rt n) = Some (Inr []) \<and>
         run_sequential skl g n = run_sequential skl g 0 \<and>
         run_parallel skl sched refs rt n = run_parallel skl sched refs rt 0"
  using assms by (simp add: run_sequential_def run_parallel_def)

theorem negative_count_empty_witness:
  "(- 3 :: int) < 0 \<and>
   fst (run_sequential (toy_sklearn 0) toy_input (- 3)) = Inr [] \<and>
   fst (run_parallel (toy_sklearn 0) [2, 0, 1] toy_refs toy_runtime (- 3)) = Some (Inr [])"
proof -
  have neg: "(- 3 :: int) < 0" by simp
  from negative_count_empty [OF neg] neg show ?thesis by blast
qed

section \<open>The shared input\<close>




section \<open>Length and order of the ResultSet\<close>

lemma run_sequential_echo:
  assumes "fst (run_sequential skl g n) = Inr rs"
  shows "map fst rs = job_specs n"
  using sequential_jobs_echo [of skl g "range_py n" rs] assms
  by (simp add: run_sequential_def job_specs_def)

lemma outcomes_nth:
  assumes "first_error (map (\<lambda>j. job_result skl g (8 + 4 * j)) (range_py n)) = Inr rs"
  shows "length rs = nat n"
    and "i < nat n \<Longrightarrow> job_result skl g (8 + 4 * int i) = Inr (rs ! i)"
proof -
  from assms have eq: "map (\<lambda>j. job_result skl g (8 + 4 * j)) (range_py n) = map Inr rs"
    by (rule first_error_Inr_D)
  then have "length (map (\<lambda>j. job_result skl g (8 + 4 * j)) (range_py n))
               = length (map Inr rs)"
    by simp
  then show len: "length rs = nat n" by simp
  assume i: "i < nat n"
  from eq have "map (\<lambda>j. job_result skl g (8 + 4 * j)) (range_py n) ! i = map Inr rs ! i"
    by simp
  with i len show "job_result skl g (8 + 4 * int i) = Inr (rs ! i)" by simp
qed

lemma first_error_succeeds:
  "\<forall>i < length xs. \<exists>r. xs ! i = Inr r \<Longrightarrow> \<exists>rs. first_error xs = Inr rs"
proof (induction xs rule: first_error.induct)
  case 1
  show ?case by simp
next
  case (2 e xs)
  from "2.prems" have "\<exists>r. (Inl e # xs) ! 0 = Inr r" by blast
  then show ?case by simp
next
  case (3 r xs)
  have "\<forall>i < length xs. \<exists>r. xs ! i = Inr r"
  proof (intro allI impI)
    fix i assume "i < length xs"
    then have "Suc i < length (Inr r # xs)" by simp
    with "3.prems" have "\<exists>r'. (Inr r # xs) ! Suc i = Inr r'" by blast
    then show "\<exists>r. xs ! i = Inr r" by simp
  qed
  with "3.IH" obtain rs where "first_error xs = Inr rs" by blast
  then show ?case by simp
qed

text \<open>
  C5. For a count \<open>n \<ge> 0\<close> a ResultSet returned by either runner has \<open>n\<close> elements, and
  its \<open>i\<close>-th element is the result of the \<open>i\<close>-th submitted JobSpec, \<open>8 + 4 * i\<close>: it echoes
  that parameter and is what the job returns on the shared input (for the sequential
  runner when the external operations are read-only, for the concurrent runner when the
  references are those of the shared input). Under every schedule that runs all its
  tasks, whatever the order of completion, the concurrent runner returns, and returns a
  ResultSet when every job succeeds. For \<open>n = 0\<close> both runners return the empty
  ResultSet.
\<close>

theorem result_set_length_order:
  assumes "0 \<le> n"
  shows "(fst (run_sequential skl g n) = Inr rs \<longrightarrow>
            int (length rs) = n \<and>
            (\<forall>i < length rs. fst (rs ! i) = 8 + 4 * int i) \<and>
            (read_only skl \<longrightarrow>
               (\<forall>i < length rs. job_result skl g (8 + 4 * int i) = Inr (rs ! i)))) \<and>
         (fst (run_parallel skl sched refs rt n) = Some (Inr rs') \<longrightarrow>
            int (length rs') = n \<and>
            (\<forall>i < length rs'. fst (rs' ! i) = 8 + 4 * int i) \<and>
            (refs_hold rt refs g \<longrightarrow>
               (\<forall>i < length rs'. job_result skl g (8 + 4 * int i) = Inr (rs' ! i)))) \<and>
         (refs_hold rt refs g \<and> runs_all sched rt n \<longrightarrow>
            (\<exists>out. fst (run_parallel skl sched refs rt n) = Some out) \<and>
            ((\<forall>j < nat n. \<exists>r. job_result skl g (8 + 4 * int j) = Inr r) \<longrightarrow>
               (\<exists>rs. fst (run_parallel skl sched refs rt n) = Some (Inr rs)))) \<and>
         fst (run_sequential skl g 0) = Inr [] \<and>
         fst (run_parallel skl sched refs rt 0) = Some (Inr [])"
proof (intro conjI impI)
  assume seq: "fst (run_sequential skl g n) = Inr rs"
  from run_sequential_echo [OF seq] have echo: "map fst rs = job_specs n" .
  then have "length (map fst rs) = length (job_specs n)" by simp
  then have len: "length rs = nat n" by (simp add: job_specs_def)
  with assms show "int (length rs) = n" by simp
  show "\<forall>i < length rs. fst (rs ! i) = 8 + 4 * int i"
  proof (intro allI impI)
    fix i assume i: "i < length rs"
    then have "fst (rs ! i) = map fst rs ! i" by simp
    with echo i len show "fst (rs ! i) = 8 + 4 * int i" by (simp add: job_specs_def)
  qed
  assume ro: "read_only skl"
  from seq have "first_error (map (\<lambda>j. job_result skl g (8 + 4 * j)) (range_py n)) = Inr rs"
    by (simp add: run_sequential_def sequential_jobs_read_only [OF ro])
  from outcomes_nth(2) [OF this] len
  show "\<forall>i < length rs. job_result skl g (8 + 4 * int i) = Inr (rs ! i)" by simp
next
  assume par: "fst (run_parallel skl sched refs rt n) = Some (Inr rs')"
  from run_parallel_resolved(1) [OF par] have len: "length rs' = nat n" .
  with assms show "int (length rs') = n" by simp
  from run_parallel_echo [OF par] have echo: "map fst rs' = job_specs n" .
  show "\<forall>i < length rs'. fst (rs' ! i) = 8 + 4 * int i"
  proof (intro allI impI)
    fix i assume i: "i < length rs'"
    then have "fst (rs' ! i) = map fst rs' ! i" by simp
    with echo i len show "fst (rs' ! i) = 8 + 4 * int i" by (simp add: job_specs_def)
  qed
  assume refs: "refs_hold rt refs g"
  show "\<forall>i < length rs'. job_result skl g (8 + 4 * int i) = Inr (rs' ! i)"
  proof (intro allI impI)
    fix i assume "i < length rs'"
    with len have i: "i < nat n" by simp
    from run_parallel_resolved(2) [OF par i] remote_outcome [OF refs, of skl "int i"]
    show "job_result skl g (8 + 4 * int i) = Inr (rs' ! i)"
      by (cases "job_result skl g (8 + 4 * int i)") simp_all
  qed
next
  assume "refs_hold rt refs g \<and> runs_all sched rt n"
  then have "refs_hold rt refs g" and "runs_all sched rt n" by simp_all
  from run_parallel_result [OF this, of skl]
  show "\<exists>out. fst (run_parallel skl sched refs rt n) = Some out" by simp
next
  assume hyps: "refs_hold rt refs g \<and> runs_all sched rt n"
    and ok: "\<forall>j < nat n. \<exists>r. job_result skl g (8 + 4 * int j) = Inr r"
  let ?outs = "map (\<lambda>j. job_result skl g (8 + 4 * j)) (range_py n)"
  from ok have "\<forall>i < length ?outs. \<exists>r. ?outs ! i = Inr r" by simp
  from first_error_succeeds [OF this] obtain rs where "first_error ?outs = Inr rs" by blast
  moreover from hyps have "refs_hold rt refs g" and "runs_all sched rt n" by simp_all
  from run_parallel_result [OF this, of skl]
  have "fst (run_parallel skl sched refs rt n) = Some (first_error ?outs)" .
  ultimately have "fst (run_parallel skl sched refs rt n) = Some (Inr rs)" by simp
  then show "\<exists>rs. fst (run_parallel skl sched refs rt n) = Some (Inr rs)" by blast
next
  show "fst (run_sequential skl g 0) = Inr []"
    by (simp add: run_sequential_def)
next
  show "fst (run_parallel skl sched refs rt 0) = Some (Inr [])"
    by (simp add: run_parallel_def)
qed

theorem result_set_length_order_witness:
  "(0::int) \<le> 3 \<and> refs_hold toy_runtime toy_refs toy_input \<and>
   runs_all [2, 0, 1] toy_runtime 3 \<and> read_only (toy_sklearn 0) \<and>
   fst (run_sequential (toy_sklearn 0) toy_input 3) = Inr [(8, 64), (12, 16), (16, 0)] \<and>
   fst (run_parallel (toy_sklearn 0) [2, 0, 1] toy_refs toy_runtime 3)
     = Some (Inr [(8, 64), (12, 16), (16, 0)]) \<and>
   int (length ([(8, 64), (12, 16), (16, 0)] :: (int \<times> int) list)) = 3 \<and>
   job_result (toy_sklearn 0) toy_input (8 + 4 * int 2) = Inr (16, 0)"
proof -
  let ?rs = "[(8, 64), (12, 16), (16, 0)] :: (int \<times> int) list"
  have n: "(0::int) \<le> 3" by simp
  have par: "fst (run_parallel (toy_sklearn 0) [2, 0, 1] toy_refs toy_runtime 3)
               = Some (Inr ?rs)"
    using run_parallel_result [OF toy_refs_hold toy_runs_all, of "toy_sklearn 0"]
    by (simp add: range_py_3 toy_job_result)
  note inst = result_set_length_order [OF n,
      of "toy_sklearn 0" toy_input ?rs "[2, 0, 1]" toy_refs toy_runtime ?rs]
  from inst par toy_refs_hold
  have len: "int (length ?rs) = 3"
    and res: "\<forall>i < length ?rs.
                job_result (toy_sklearn 0) toy_input (8 + 4 * int i) = Inr (?rs ! i)"
    by blast+
  have "(2::nat) < length ?rs" by simp
  with res have "job_result (toy_sklearn 0) toy_input (8 + 4 * int 2) = Inr (?rs ! 2)"
    by blast
  then have "job_result (toy_sklearn 0) toy_input (8 + 4 * int 2) = Inr (16, 0)"
    by simp
  with len n toy_refs_hold toy_runs_all toy_read_only [of 0] toy_sequential par
  show ?thesis by simp
qed

section \<open>Failures\<close>

text \<open>
  C7. When the job for some JobSpec \<open>k\<close> fails, neither runner returns a ResultSet: both
  report a failure, and the same one, the failure of the first failing job. When no job
  before \<open>k\<close> fails (in particular when \<open>k\<close> is the only failing job) it is the failure of
  job \<open>k\<close>. The external operations are read-only and the scheduler runs every task.
\<close>

theorem failure_surfaces:
  assumes "read_only skl" and "refs_hold rt refs g" and "runs_all sched rt n"
    and "k < nat n" and "job_result skl g (8 + 4 * int k) = Inl e"
  shows "\<exists>e'. fst (run_sequential skl g n) = Inl e' \<and>
              fst (run_parallel skl sched refs rt n) = Some (Inl e') \<and>
              ((\<forall>j < k. \<exists>r. job_result skl g (8 + 4 * int j) = Inr r) \<longrightarrow> e' = e)"
proof -
  let ?outs = "map (\<lambda>j. job_result skl g (8 + 4 * j)) (range_py n)"
  have k: "k < length ?outs" using assms(4) by simp
  have at: "?outs ! k = Inl e" using assms(4,5) by simp
  from first_error_fails [OF k at] obtain e' where e': "first_error ?outs = Inl e'" by blast
  have seq: "fst (run_sequential skl g n) = Inl e'"
    using e' by (simp add: run_sequential_def sequential_jobs_read_only [OF assms(1)])
  have par: "fst (run_parallel skl sched refs rt n) = Some (Inl e')"
    using e' run_parallel_result [OF assms(2,3), of skl] by simp
  have "e' = e" if before: "\<forall>j < k. \<exists>r. job_result skl g (8 + 4 * int j) = Inr r"
  proof -
    have "\<forall>j < k. \<exists>r. ?outs ! j = Inr r"
      using before assms(4) by simp
    from first_error_Inl [OF k at this] e' show ?thesis by simp
  qed
  with seq par show ?thesis by blast
qed

theorem failure_surfaces_witness:
  "read_only (toy_sklearn 12) \<and> refs_hold toy_runtime toy_refs toy_input \<and>
   runs_all [2, 0, 1] toy_runtime 3 \<and> (1::nat) < nat 3 \<and>
   job_result (toy_sklearn 12) toy_input (8 + 4 * int 1) = Inl 12 \<and>
   fst (run_sequential (toy_sklearn 12) toy_input 3) = Inl 12 \<and>
   fst (run_parallel (toy_sklearn 12) [2, 0, 1] toy_refs toy_runtime 3) = Some (Inl 12)"
proof -
  have k: "(1::nat) < nat 3" by simp
  have fails: "job_result (toy_sklearn 12) toy_input (8 + 4 * int 1) = Inl 12"
    by (simp add: toy_job_result)
  have before: "\<forall>j < (1::nat). \<exists>r. job_result (toy_sklearn 12) toy_input (8 + 4 * int j) = Inr r"
    by (simp add: toy_job_result)
  from failure_surfaces [OF toy_read_only toy_refs_hold toy_runs_all k fails] before
  have "fst (run_sequential (toy_sklearn 12) toy_input 3) = Inl 12 \<and>
        fst (run_parallel (toy_sklearn 12) [2, 0, 1] toy_refs toy_runtime 3) = Some (Inl 12)"
    by blast
  with k fails toy_read_only [of 12] toy_refs_hold toy_runs_all show ?thesis by blast
qed

section \<open>The echoed parameter\<close>

lemma job_specs_strict: "sorted_wrt (<) (job_specs n)"
  by (simp add: sorted_wrt_iff_nth_less job_specs_def)

lemma best_mem:
  assumes "best rs = Inr b"
  shows "b \<in> set rs"
proof (cases rs)
  case Nil
  with assms show ?thesis by (simp add: best_def min_py_def)
next
  case (Cons x xs)
  with assms have "b = min_scan itemgetter_1 x xs" by (simp add: best_def min_py_def)
  with min_scan_mem [of itemgetter_1 x xs] Cons show ?thesis by simp
qed

lemma echo_properties:
  fixes rs :: "(int \<times> 's::ord) list"
  assumes echo: "map fst rs = job_specs n"
  shows "length rs = nat n \<and>
         (\<forall>j < length rs. fst (rs ! j) = 8 + 4 * int j) \<and>
         sorted_wrt (<) (map fst rs) \<and>
         distinct (map fst rs) \<and>
         (rs \<noteq> [] \<longrightarrow> (\<exists>b. best rs = Inr b)) \<and>
         (\<forall>b. best rs = Inr b \<longrightarrow>
              (\<exists>!j. j < length rs \<and> fst (rs ! j) = fst b) \<and>
              (\<forall>j < length rs. fst (rs ! j) = fst b \<longrightarrow> rs ! j = b))"
proof -
  from echo have "length (map fst rs) = length (job_specs n)" by simp
  then have len: "length rs = nat n" by (simp add: job_specs_def)
  have nth: "fst (rs ! j) = 8 + 4 * int j" if "j < length rs" for j
  proof -
    from that have "fst (rs ! j) = map fst rs ! j" by simp
    with echo that len show ?thesis by (simp add: job_specs_def)
  qed
  have strict: "sorted_wrt (<) (map fst rs)"
    using echo job_specs_strict by simp
  then have dist: "distinct (map fst rs)"
    by (simp add: strict_sorted_iff)
  have some: "\<exists>b. best rs = Inr b" if "rs \<noteq> []"
    using that by (cases rs) (simp_all add: best_def min_py_def)
  have sel: "(\<exists>!j. j < length rs \<and> fst (rs ! j) = fst b) \<and>
             (\<forall>j < length rs. fst (rs ! j) = fst b \<longrightarrow> rs ! j = b)"
    if b: "best rs = Inr b" for b
  proof -
    from best_mem [OF b] obtain i where i: "i < length rs" and at: "rs ! i = b"
      by (auto simp: in_set_conv_nth)
    have same: "j = i" if "j < length rs" and "fst (rs ! j) = fst b" for j
    proof -
      from that i at have "map fst rs ! j = map fst rs ! i" by simp
      moreover from that(1) i have "j < length (map fst rs)" "i < length (map fst rs)"
        by simp_all
      ultimately show ?thesis
        using nth_eq_iff_index_eq [OF dist] by blast
    qed
    have "\<exists>!j. j < length rs \<and> fst (rs ! j) = fst b"
    proof (rule ex1I [of _ i])
      from i at show "i < length rs \<and> fst (rs ! i) = fst b" by simp
    next
      fix j assume "j < length rs \<and> fst (rs ! j) = fst b"
      then show "j = i" using same by blast
    qed
    moreover have "\<forall>j < length rs. fst (rs ! j) = fst b \<longrightarrow> rs ! j = b"
      using same at by blast
    ultimately show ?thesis by (rule conjI)
  qed
  show ?thesis
  proof (intro conjI allI impI)
    show "length rs = nat n" by (rule len)
    show "\<And>j. j < length rs \<Longrightarrow> fst (rs ! j) = 8 + 4 * int j" by (rule nth)
    show "sorted_wrt (<) (map fst rs)" by (rule strict)
    show "distinct (map fst rs)" by (rule dist)
    show "rs \<noteq> [] \<Longrightarrow> \<exists>b. best rs = Inr b" by (rule some)
    show "\<And>b. best rs = Inr b \<Longrightarrow> \<exists>!j. j < length rs \<and> fst (rs ! j) = fst b"
      using sel by blast
    show "\<And>b j. best rs = Inr b \<Longrightarrow> j < length rs \<Longrightarrow> fst (rs ! j) = fst b
            \<Longrightarrow> rs ! j = b"
      using sel by blast
  qed
qed

text \<open>
  C9. Each runner returns a ResultSet when every job succeeds (the sequential runner
  with read-only external operations, the concurrent runner under a schedule that runs
  all its tasks), and in a ResultSet returned by either runner the \<open>j\<close>-th element echoes
  the \<open>j\<close>-th generated parameter, \<open>8 + 4 * j\<close>, for every \<open>j\<close> below the count. So the
  parameters of a ResultSet are strictly increasing and pairwise distinct; a non-empty
  ResultSet has a best result, and the parameter of the best result belongs to exactly
  one position, that of the best result itself.
\<close>

theorem results_echo_parameter:
  fixes rs :: "(int \<times> 's::ord) list"
  shows
    "(read_only skl \<and> (\<forall>j < nat n. \<exists>r. job_result skl g (8 + 4 * int j) = Inr r) \<longrightarrow>
        (\<exists>rs1. fst (run_sequential skl g n) = Inr rs1)) \<and>
     (refs_hold rt refs g \<and> runs_all sched rt n \<and>
      (\<forall>j < nat n. \<exists>r. job_result skl g (8 + 4 * int j) = Inr r) \<longrightarrow>
        (\<exists>rs2. fst (run_parallel skl sched refs rt n) = Some (Inr rs2))) \<and>
     (fst (run_sequential skl g n) = Inr rs \<or>
      fst (run_parallel skl sched refs rt n) = Some (Inr rs) \<longrightarrow>
        length rs = nat n \<and>
        (\<forall>j < length rs. fst (rs ! j) = 8 + 4 * int j) \<and>
        sorted_wrt (<) (map fst rs) \<and>
        distinct (map fst rs) \<and>
        (rs \<noteq> [] \<longrightarrow> (\<exists>b. best rs = Inr b)) \<and>
        (\<forall>b. best rs = Inr b \<longrightarrow>
             (\<exists>!j. j < length rs \<and> fst (rs ! j) = fst b) \<and>
             (\<forall>j < length rs. fst (rs ! j) = fst b \<longrightarrow> rs ! j = b)))"
proof (intro conjI)
  let ?outs = "map (\<lambda>j. job_result skl g (8 + 4 * j)) (range_py n)"
  have outs: "\<exists>rs. first_error ?outs = Inr rs"
    if "\<forall>j < nat n. \<exists>r. job_result skl g (8 + 4 * int j) = Inr r"
  proof -
    from that have "\<forall>i < length ?outs. \<exists>r. ?outs ! i = Inr r" by simp
    then show ?thesis by (rule first_error_succeeds)
  qed
  show "read_only skl \<and> (\<forall>j < nat n. \<exists>r. job_result skl g (8 + 4 * int j) = Inr r) \<longrightarrow>
          (\<exists>rs1. fst (run_sequential skl g n) = Inr rs1)"
  proof
    assume h: "read_only skl \<and> (\<forall>j < nat n. \<exists>r. job_result skl g (8 + 4 * int j) = Inr r)"
    then have ro: "read_only skl" by simp
    from h outs obtain rs1 where "first_error ?outs = Inr rs1" by blast
    then have "fst (run_sequential skl g n) = Inr rs1"
      by (simp add: run_sequential_def sequential_jobs_read_only [OF ro])
    then show "\<exists>rs1. fst (run_sequential skl g n) = Inr rs1" by blast
  qed
  show "refs_hold rt refs g \<and> runs_all sched rt n \<and>
        (\<forall>j < nat n. \<exists>r. job_result skl g (8 + 4 * int j) = Inr r) \<longrightarrow>
          (\<exists>rs2. fst (run_parallel skl sched refs rt n) = Some (Inr rs2))"
  proof
    assume h: "refs_hold rt refs g \<and> runs_all sched rt n \<and>
               (\<forall>j < nat n. \<exists>r. job_result skl g (8 + 4 * int j) = Inr r)"
    then have "refs_hold rt refs g" and "runs_all sched rt n" by simp_all
    from run_parallel_result [OF this, of skl]
    have "fst (run_parallel skl sched refs rt n) = Some (first_error ?outs)" .
    moreover from h outs obtain rs2 where "first_error ?outs = Inr rs2" by blast
    ultimately have "fst (run_parallel skl sched refs rt n) = Some (Inr rs2)" by simp
    then show "\<exists>rs2. fst (run_parallel skl sched refs rt n) = Some (Inr rs2)" by blast
  qed
  show "fst (run_sequential skl g n) = Inr rs \<or>
        fst (run_parallel skl sched refs rt n) = Some (Inr rs) \<longrightarrow>
          length rs = nat n \<and>
          (\<forall>j < length rs. fst (rs ! j) = 8 + 4 * int j) \<and>
          sorted_wrt (<) (map fst rs) \<and>
          distinct (map fst rs) \<and>
          (rs \<noteq> [] \<longrightarrow> (\<exists>b. best rs = Inr b)) \<and>
          (\<forall>b. best rs = Inr b \<longrightarrow>
               (\<exists>!j. j < length rs \<and> fst (rs ! j) = fst b) \<and>
               (\<forall>j < length rs. fst (rs ! j) = fst b \<longrightarrow> rs ! j = b))"
  proof
    assume "fst (run_sequential skl g n) = Inr rs \<or>
            fst (run_parallel skl sched refs rt n) = Some (Inr rs)"
    then have "map fst rs = job_specs n"
      using run_sequential_echo run_parallel_echo by blast
    then show "length rs = nat n \<and>
          (\<forall>j < length rs. fst (rs ! j) = 8 + 4 * int j) \<and>
          sorted_wrt (<) (map fst rs) \<and>
          distinct (map fst rs) \<and>
          (rs \<noteq> [] \<longrightarrow> (\<exists>b. best rs = Inr b)) \<and>
          (\<forall>b. best rs = Inr b \<longrightarrow>
               (\<exists>!j. j < length rs \<and> fst (rs ! j) = fst b) \<and>
               (\<forall>j < length rs. fst (rs ! j) = fst b \<longrightarrow> rs ! j = b))"
      by (rule echo_properties)
  qed
qed

theorem results_echo_parameter_witness:
  "read_only (toy_sklearn 0) \<and> refs_hold toy_runtime toy_refs toy_input \<and>
   runs_all [2, 0, 1] toy_runtime 3 \<and>
   (\<exists>rs1. fst (run_sequential (toy_sklearn 0) toy_input 3) = Inr rs1) \<and>
   (\<exists>rs2. fst (run_parallel (toy_sklearn 0) [2, 0, 1] toy_refs toy_runtime 3)
            = Some (Inr rs2)) \<and>
   fst (run_sequential (toy_sklearn 0) toy_input 3) = Inr [(8, 64), (12, 16), (16, 0)] \<and>
   fst (run_parallel (toy_sklearn 0) [2, 0, 1] toy_refs toy_runtime 3)
     = Some (Inr [(8, 64), (12, 16), (16, 0)]) \<and>
   best ([(8, 64), (12, 16), (16, 0)] :: (int \<times> int) list) = Inr (16, 0) \<and>
   fst (([(8, 64), (12, 16), (16, 0)] :: (int \<times> int) list) ! 2) = 8 + 4 * int 2 \<and>
   distinct (map fst ([(8, 64), (12, 16), (16, 0)] :: (int \<times> int) list)) \<and>
   (\<exists>!j. j < length ([(8, 64), (12, 16), (16, 0)] :: (int \<times> int) list) \<and>
          fst (([(8, 64), (12, 16), (16, 0)] :: (int \<times> int) list) ! j)
            = fst (16 :: int, 0 :: int))"
proof -
  let ?rs = "[(8, 64), (12, 16), (16, 0)] :: (int \<times> int) list"
  note inst = results_echo_parameter [of "toy_sklearn 0" 3 toy_input toy_runtime toy_refs
      "[2, 0, 1]" ?rs]
  have ok: "\<forall>j < nat 3. \<exists>r. job_result (toy_sklearn 0) toy_input (8 + 4 * int j) = Inr r"
    by (simp add: toy_job_result)
  from inst toy_read_only [of 0] ok
  have seq_ret: "\<exists>rs1. fst (run_sequential (toy_sklearn 0) toy_input 3) = Inr rs1"
    by blast
  from inst toy_refs_hold toy_runs_all ok
  have par_ret: "\<exists>rs2. fst (run_parallel (toy_sklearn 0) [2, 0, 1] toy_refs toy_runtime 3)
                         = Some (Inr rs2)"
    by blast
  have par: "fst (run_parallel (toy_sklearn 0) [2, 0, 1] toy_refs toy_runtime 3)
               = Some (Inr ?rs)"
    using run_parallel_result [OF toy_refs_hold toy_runs_all, of "toy_sklearn 0"]
    by (simp add: range_py_3 toy_job_result)
  have sel: "best ?rs = Inr (16, 0)"
    by (simp add: best_def min_py_def itemgetter_1_def)
  from inst toy_sequential
  have nth: "\<forall>j < length ?rs. fst (?rs ! j) = 8 + 4 * int j"
    and dist: "distinct (map fst ?rs)"
    and uniq: "\<forall>b. best ?rs = Inr b \<longrightarrow>
                 (\<exists>!j. j < length ?rs \<and> fst (?rs ! j) = fst b) \<and>
                 (\<forall>j < length ?rs. fst (?rs ! j) = fst b \<longrightarrow> ?rs ! j = b)"
    by blast+
  from uniq sel have one: "\<exists>!j. j < length ?rs \<and> fst (?rs ! j) = fst (16 :: int, 0 :: int)"
    by blast
  have "(2::nat) < length ?rs" by simp
  with nth have at: "fst (?rs ! 2) = 8 + 4 * int 2" by blast
  from toy_read_only [of 0] toy_refs_hold toy_runs_all seq_ret par_ret toy_sequential par
    sel at dist one
  show ?thesis by (intro conjI)
qed

end
